theory Spec2Isabelle
  imports Complex_Main "HOL-Library.Sublist"
begin

section \<open>The quantum prediction engine (src/data/quantumPredictionEngine.ts)\<close>

text \<open>
  JavaScript numbers that hold counts and range bounds are modelled as \<open>int\<close>, the
  values returned by \<open>Math.random()\<close> and everything computed from them as \<open>real\<close>
  (idealised arithmetic: rounding of IEEE doubles is not modelled). The global generator
  behind \<open>Math.random()\<close> is an explicit stream \<open>e :: nat \<Rightarrow> real\<close> of the values it
  will return, together with the number \<open>i\<close> of values already consumed; a function that
  draws returns the advanced position with its result.
\<close>

type_synonym entropy = "nat \<Rightarrow> real"

type_synonym LotteryType = string

subsection \<open>Feature importance\<close>

definition baseImportance :: "(string \<times> real) list" where
  "baseImportance =
     [(''frequency'', 0.35), (''recency'', 0.25), (''entropy'', 0.20),
      (''cooccurrence'', 0.15), (''seasonality'', 0.05)]"

definition variation :: real where
  "variation = 0.1"

text \<open>
  \<open>Object.entries(baseImportance).map(([key, value]) => [key, Math.min(0.95,
  Math.max(0.05, value + (Math.random() * variation * 2 - variation)))])\<close>:
  the entries are visited in insertion order and each visit draws once.
\<close>

fun mapEntries :: "entropy \<Rightarrow> nat \<Rightarrow> (string \<times> real) list \<Rightarrow> (string \<times> real) list" where
  "mapEntries e i [] = []"
| "mapEntries e i ((key, val) # rest) =
     (key, min 0.95 (max 0.05 (val + (e i * variation * 2 - variation))))
       # mapEntries e (Suc i) rest"

text \<open>\<open>Object.fromEntries\<close>: a later entry for the same key replaces an earlier one.\<close>

fun fromEntries :: "(string \<times> real) list \<Rightarrow> (string \<rightharpoonup> real) \<Rightarrow> (string \<rightharpoonup> real)" where
  "fromEntries [] obj = obj"
| "fromEntries ((key, val) # rest) obj = fromEntries rest (obj(key \<mapsto> val))"

definition generateFeatureImportance ::
  "entropy \<Rightarrow> nat \<Rightarrow> LotteryType \<Rightarrow> (string \<rightharpoonup> real) \<times> nat" where
  "generateFeatureImportance e i lotteryType =
     (fromEntries (mapEntries e i baseImportance) Map.empty, i + length baseImportance)"

subsection \<open>Configuration and engine state\<close>

record QuantumKernelParams =
  entanglementDepth :: int
  quantumCircuitLayers :: int
  featureMap :: string
  kernelType :: string
  optimizationLevel :: int

record QuantumPredictionConfig =
  kernelParams :: QuantumKernelParams
  ensembleSize :: int
  confidenceThreshold :: real
  historicalDataWeight :: real
  quantumNoiseModel :: string
  adaptiveLearningRate :: real
  featureEngineeringDepth :: int

definition defaultQuantumConfig :: QuantumPredictionConfig where
  "defaultQuantumConfig =
     \<lparr> kernelParams =
         \<lparr> entanglementDepth = 3, quantumCircuitLayers = 2, featureMap = ''PauliFeatureMap'',
           kernelType = ''hybrid'', optimizationLevel = 2 \<rparr>,
       ensembleSize = 5, confidenceThreshold = 0.85, historicalDataWeight = 0.7,
       quantumNoiseModel = ''depolarizing'', adaptiveLearningRate = 0.01,
       featureEngineeringDepth = 3 \<rparr>"

text \<open>
  The objects returned by \<open>getLotteryConfiguration\<close>; \<open>specialNumberCount\<close> and
  \<open>specialNumberRange\<close> are absent (\<open>None\<close>) for lotteries without special numbers.
\<close>

record LotteryConfiguration =
  numberCount :: int
  numberRange :: int
  specialNumbers :: bool
  specialNumberCount :: "int option"
  specialNumberRange :: "int option"
  drawFrequency :: string
  historicalDataDepth :: int

text \<open>
  Arrays are objects with identity: the store holds the array objects, an address is an
  index into it, and allocation appends. The engine's \<open>supportedLotteries\<close> field is a
  reference into the store. The elements of \<open>historicalData\<close> have type \<open>any\<close> in the
  source and are a type parameter here.
\<close>

type_synonym addr = nat

type_synonym store = "LotteryType list list"

record 'd QuantumPredictionEngine =
  config :: QuantumPredictionConfig
  historicalData :: "LotteryType \<rightharpoonup> 'd list"
  featureMatrix :: "real list list"
  supportedLotteries :: addr
  lotteryConfigurations :: "LotteryType \<rightharpoonup> LotteryConfiguration"

definition getLotteryConfiguration :: "LotteryType \<Rightarrow> LotteryConfiguration" where
  "getLotteryConfiguration lotteryType =
     (if lotteryType = ''emirates_mega7'' then
        \<lparr> numberCount = 7, numberRange = 49, specialNumbers = False,
          specialNumberCount = None, specialNumberRange = None,
          drawFrequency = ''weekly'', historicalDataDepth = 100 \<rparr>
      else if lotteryType = ''emirates_easy6'' then
        \<lparr> numberCount = 6, numberRange = 42, specialNumbers = False,
          specialNumberCount = None, specialNumberRange = None,
          drawFrequency = ''weekly'', historicalDataDepth = 100 \<rparr>
      else if lotteryType = ''us_powerball'' then
        \<lparr> numberCount = 5, numberRange = 69, specialNumbers = True,
          specialNumberCount = Some 1, specialNumberRange = Some 26,
          drawFrequency = ''twice-weekly'', historicalDataDepth = 200 \<rparr>
      else if lotteryType = ''euro_millions'' then
        \<lparr> numberCount = 5, numberRange = 50, specialNumbers = True,
          specialNumberCount = Some 2, specialNumberRange = Some 12,
          drawFrequency = ''twice-weekly'', historicalDataDepth = 150 \<rparr>
      else if lotteryType = ''india_lotto'' then
        \<lparr> numberCount = 6, numberRange = 49, specialNumbers = False,
          specialNumberCount = None, specialNumberRange = None,
          drawFrequency = ''weekly'', historicalDataDepth = 80 \<rparr>
      else
        \<lparr> numberCount = 6, numberRange = 49, specialNumbers = False,
          specialNumberCount = None, specialNumberRange = None,
          drawFrequency = ''weekly'', historicalDataDepth = 100 \<rparr>)"

text \<open>\<open>getSupportedLotteries\<close> returns \<open>[...this.supportedLotteries]\<close>: a new array object
  holding the elements of the engine's array.\<close>

definition getSupportedLotteries ::
  "'d QuantumPredictionEngine \<Rightarrow> store \<Rightarrow> addr \<times> store" where
  "getSupportedLotteries this st = (length st, st @ [st ! supportedLotteries this])"

subsection \<open>The unique bounded sampler\<close>

text \<open>The inner \<open>for\<close> loop of the sampler, run \<open>n\<close> times.\<close>

fun enhance :: "nat \<Rightarrow> real \<Rightarrow> real" where
  "enhance 0 quantumFactor = quantumFactor"
| "enhance (Suc n) quantumFactor = enhance n ((quantumFactor + sin (quantumFactor * pi)) / 2)"

text \<open>
  The candidate computed by one iteration of the \<open>while\<close> loop from the draws at
  positions \<open>i\<close>, \<open>i + 1\<close>, \<open>i + 2\<close>.
\<close>

definition candidate ::
  "entropy \<Rightarrow> LotteryConfiguration option \<Rightarrow> int \<Rightarrow> int \<Rightarrow> int \<Rightarrow> nat \<Rightarrow> int" where
  "candidate e lotteryConfig quantumCircuitDepth mn mx i =
     (let r1 = e i; r2 = e (i + 1); r3 = e (i + 2);
          quantumFactor = sin (r1 * r2 * pi) * cos (r3 * pi) + 0.5;
          quantumFactor =
            (if lotteryConfig \<noteq> None
             then enhance (nat (min 3 quantumCircuitDepth)) quantumFactor
             else quantumFactor)
      in \<lfloor>real_of_int mn + quantumFactor * real_of_int (mx - mn + 1)\<rfloor>)"

text \<open>\<open>!used[num]\<close> on a \<open>Record<number, boolean>\<close>: a missing key reads \<open>undefined\<close>.\<close>

definition unused :: "(int \<rightharpoonup> bool) \<Rightarrow> int \<Rightarrow> bool" where
  "unused used num = (case used num of None \<Rightarrow> True | Some b \<Rightarrow> \<not> b)"

text \<open>
  The \<open>while (result.length < actualCount)\<close> loop. It has no bound on the number of
  iterations, so it is a partial function: \<open>None\<close> means that the loop runs forever.
\<close>

partial_function (option) samplingLoop ::
  "entropy \<Rightarrow> LotteryConfiguration option \<Rightarrow> int \<Rightarrow> int \<Rightarrow> int \<Rightarrow> int \<Rightarrow>
     nat \<Rightarrow> int list \<Rightarrow> (int \<rightharpoonup> bool) \<Rightarrow> (int list \<times> nat) option" where
  "samplingLoop e lotteryConfig quantumCircuitDepth actualCount mn mx i result used =
     (if int (length result) < actualCount then
        (let num = candidate e lotteryConfig quantumCircuitDepth mn mx i
         in if mn \<le> num \<and> num \<le> mx \<and> unused used num
            then samplingLoop e lotteryConfig quantumCircuitDepth actualCount mn mx (i + 3)
                   (result @ [num]) (used(num \<mapsto> True))
            else samplingLoop e lotteryConfig quantumCircuitDepth actualCount mn mx (i + 3)
                   result used)
      else Some (result, i))"

text \<open>
  \<open>generateQuantumRandomNumbers(count, min, max, lotteryType?)\<close>. The optional
  \<open>lotteryType\<close> is \<open>None\<close> when the argument is omitted; an empty string is falsy.
\<close>

definition generateQuantumRandomNumbers ::
  "'d QuantumPredictionEngine \<Rightarrow> entropy \<Rightarrow> nat \<Rightarrow> int \<Rightarrow> int \<Rightarrow> int \<Rightarrow>
     LotteryType option \<Rightarrow> (int list \<times> nat) option" where
  "generateQuantumRandomNumbers this e i count mn mx lotteryType =
     (let lotteryConfig =
            (case lotteryType of
               None \<Rightarrow> None
             | Some t \<Rightarrow> if t = [] then None else lotteryConfigurations this t);
          quantumCircuitDepth =
            quantumCircuitLayers (kernelParams (config this))
              * entanglementDepth (kernelParams (config this));
          possibleNumbers = mx - mn + 1;
          actualCount = min count possibleNumbers
      in samplingLoop e lotteryConfig quantumCircuitDepth actualCount mn mx i [] Map.empty)"

text \<open>
  The specification's \<open>sampleUnique(count, min, max)\<close>: the sampler as
  \<open>generatePredictionSet\<close> uses it, that is, called without a lottery type and followed
  by \<open>numbers.sort((a, b) => a - b)\<close>.
\<close>

definition sampleUnique ::
  "'d QuantumPredictionEngine \<Rightarrow> entropy \<Rightarrow> nat \<Rightarrow> int \<Rightarrow> int \<Rightarrow> int \<Rightarrow> int list option" where
  "sampleUnique this e i count mn mx =
     map_option (\<lambda>(numbers, i'). sort numbers)
       (generateQuantumRandomNumbers this e i count mn mx None)"


subsection \<open>The other samplers of the repository\<close>

text \<open>
  \<open>generateUniqueRandomNumbers(min, max, count)\<close> of the engine: a \<open>Set\<close> filled until it
  has \<open>count\<close> elements, then \<open>Array.from(numbers).sort((a, b) => a - b)\<close>. The set is the
  list of its elements in insertion order.
\<close>

partial_function (option) generateUniqueRandomNumbersLoop ::
  "entropy \<Rightarrow> int \<Rightarrow> int \<Rightarrow> int \<Rightarrow> nat \<Rightarrow> int list \<Rightarrow> (int list \<times> nat) option" where
  "generateUniqueRandomNumbersLoop e mn mx count i nums =
     (if int (length nums) < count then
        (let num = \<lfloor>e i * real_of_int (mx - mn + 1)\<rfloor> + mn
         in generateUniqueRandomNumbersLoop e mn mx count (i + 1)
              (if num \<in> set nums then nums else nums @ [num]))
      else Some (nums, i))"

definition generateUniqueRandomNumbers ::
  "entropy \<Rightarrow> nat \<Rightarrow> int \<Rightarrow> int \<Rightarrow> int \<Rightarrow> (int list \<times> nat) option" where
  "generateUniqueRandomNumbers e i mn mx count =
     map_option (\<lambda>(nums, i'). (sort nums, i'))
       (generateUniqueRandomNumbersLoop e mn mx count i [])"

text \<open>
  \<open>generateNumbers(count, max)\<close> of \<open>mockPredictionResponse\<close> in
  src/services/apiService.ts; the component \<open>QuantumNumberGenerator\<close> runs the same loop
  on \<open>format.mainNumbers\<close> and \<open>format.mainRange\<close>.
\<close>

partial_function (option) generateNumbersLoop ::
  "entropy \<Rightarrow> int \<Rightarrow> int \<Rightarrow> nat \<Rightarrow> int list \<Rightarrow> (int list \<times> nat) option" where
  "generateNumbersLoop e count mx i nums =
     (if int (length nums) < count then
        (let num = \<lfloor>e i * real_of_int mx\<rfloor> + 1
         in if num \<notin> set nums
            then generateNumbersLoop e count mx (i + 1) (nums @ [num])
            else generateNumbersLoop e count mx (i + 1) nums)
      else Some (nums, i))"

definition generateNumbers ::
  "entropy \<Rightarrow> nat \<Rightarrow> int \<Rightarrow> int \<Rightarrow> (int list \<times> nat) option" where
  "generateNumbers e i count mx =
     map_option (\<lambda>(nums, i'). (sort nums, i')) (generateNumbersLoop e count mx i [])"

subsection \<open>Prediction sets\<close>

text \<open>
  Reading an array at a computed index: \<open>None\<close> is JavaScript's \<open>undefined\<close>, the value
  of an index outside the array. The fields of a prediction set that the source fills with
  such a read are options.
\<close>

definition index :: "'a list \<Rightarrow> int \<Rightarrow> 'a option" where
  "index xs k = (if 0 \<le> k \<and> k < int (length xs) then Some (xs ! nat k) else None)"

record PredictionSet =
  ident :: string
  name :: "string option"
  numbers :: "int list"
  bonus :: "int list"
  confidence :: real
  strategy :: "string option"
  rationale :: "string option"
  expectedValue :: real

definition strategies :: "string list" where
  "strategies =
     [''Non-Linear Dynamics'', ''Temporal Pattern Mining'', ''Multi-Modal Fusion'',
      ''Quantum Probability Field'', ''Strategic Value Play'', ''Hybrid Ensemble'',
      ''Chaos Theory Emergence'', ''Historical Resonance'']"

definition getRandomStrategy :: "entropy \<Rightarrow> nat \<Rightarrow> string option \<times> nat" where
  "getRandomStrategy e i = (index strategies \<lfloor>e i * real (length strategies)\<rfloor>, i + 1)"

definition rationales :: "string \<rightharpoonup> string list" where
  "rationales = map_of
     [(''Quantum Neural Convergence'',
        [''Quantum circuit analysis reveals strong probability amplitudes'',
         ''Neural network fusion with quantum kernels optimizes selection'',
         ''Entanglement patterns suggest high coherence in number selection'']),
      (''Non-Linear Dynamics'',
        [''Chaos theory analysis of historical patterns reveals attractor states'',
         ''Fractal dimension analysis suggests emergent number patterns'',
         ''Lyapunov exponent optimization for maximum divergence from common selections'']),
      (''Temporal Pattern Mining'',
        [''Time-series analysis reveals cyclical patterns in historical draws'',
         ''Seasonal decomposition highlights recurring number combinations'',
         ''Autocorrelation analysis suggests strong temporal dependencies'']),
      (''Multi-Modal Fusion'',
        [''Ensemble of quantum and classical models with weighted voting'',
         ''Bayesian model averaging with quantum prior distributions'',
         ''Hybrid quantum-classical architecture with reinforcement learning'']),
      (''Quantum Probability Field'',
        [''Quantum field theory applied to probability distributions'',
         ''Path integral formulation optimizes across multiple universes'',
         ''Quantum annealing process converges on optimal number selection''])]"

definition lotteryRationales :: "LotteryType \<rightharpoonup> string list" where
  "lotteryRationales = map_of
     [(''emirates_mega7'',
        [''Emirates Mega7 historical pattern analysis shows favorable probability distribution'',
         ''Quantum analysis of Emirates Mega7 draws indicates these numbers are underrepresented'']),
      (''emirates_easy6'',
        [''Emirates Easy6 draw patterns suggest these numbers are due for appearance'',
         ''Statistical anomalies in Emirates Easy6 history support this prediction'']),
      (''us_powerball'',
        [''US Powerball frequency analysis shows these numbers have favorable probability'',
         ''Quantum entanglement patterns specific to Powerball draws favor these selections'']),
      (''euro_millions'',
        [''EuroMillions historical data shows a trend favoring these numbers'',
         ''Quantum circuit optimization for EuroMillions parameters suggests this combination'']),
      (''india_lotto'',
        [''India Lotto draw analysis indicates these numbers have higher probability'',
         ''Statistical patterns in India Lotto history support this prediction''])]"

text \<open>
  \<open>generateRationale(strategy, numbers, lotteryType?)\<close>. The tables are created by each
  call, so the \<open>push\<close> onto the selected list is an append to a local value. Lottery types
  are taken not to be names of members of \<open>Object.prototype\<close>.
\<close>

definition generateRationale ::
  "entropy \<Rightarrow> nat \<Rightarrow> string option \<Rightarrow> int list \<Rightarrow> LotteryType option \<Rightarrow> string option \<times> nat" where
  "generateRationale e i strat nums lotteryType =
     (let strategyRationales =
            (case (case strat of None \<Rightarrow> None | Some s \<Rightarrow> rationales s) of
               Some rs \<Rightarrow> rs
             | None \<Rightarrow>
                 [''Advanced algorithmic analysis of historical patterns'',
                  ''Statistical optimization with machine learning enhancement'',
                  ''Probabilistic modeling with entropy maximization'']);
          strategyRationales =
            (case lotteryType of
               None \<Rightarrow> strategyRationales
             | Some t \<Rightarrow>
                 (if t = [] then strategyRationales
                  else case lotteryRationales t of
                         None \<Rightarrow> strategyRationales
                       | Some ls \<Rightarrow> strategyRationales @ ls))
      in (index strategyRationales \<lfloor>e i * real (length strategyRationales)\<rfloor>, i + 1))"

text \<open>
  \<open>generatePredictionSet(id, strategy, lotteryType, lotteryConfig)\<close>. The destructuring
  gives \<open>specialNumberCount\<close> and \<open>specialNumberRange\<close> the default 0.
\<close>

definition generatePredictionSet ::
  "'d QuantumPredictionEngine \<Rightarrow> entropy \<Rightarrow> nat \<Rightarrow> string \<Rightarrow> string option \<Rightarrow> LotteryType \<Rightarrow>
     LotteryConfiguration \<Rightarrow> (PredictionSet \<times> nat) option" where
  "generatePredictionSet this e i psId strat lotteryType lotteryConfig =
     (let specialCount = (case specialNumberCount lotteryConfig of None \<Rightarrow> 0 | Some c \<Rightarrow> c);
          specialRange = (case specialNumberRange lotteryConfig of None \<Rightarrow> 0 | Some r \<Rightarrow> r)
      in case generateQuantumRandomNumbers this e i
                (numberCount lotteryConfig) 1 (numberRange lotteryConfig) None of
           None \<Rightarrow> None
         | Some (nums, i1) \<Rightarrow>
            (case (if specialNumbers lotteryConfig \<and> 0 < specialCount
                   then generateQuantumRandomNumbers this e i1 specialCount 1 specialRange None
                   else Some ([], i1)) of
               None \<Rightarrow> None
             | Some (bns, i2) \<Rightarrow>
                (let (rat, i3) = generateRationale e i2 strat nums (Some lotteryType);
                     conf = 90 + e i3 * 9;
                     ev = 7 + e (i3 + 1) * 2
                 in Some (\<lparr> ident = psId, name = strat, numbers = sort nums,
                            bonus = sort bns, confidence = conf, strategy = strat,
                            rationale = rat, expectedValue = ev \<rparr>, i3 + 2))))"

subsection \<open>Predictions\<close>

record QuantumMetrics =
  entanglementScore :: real
  quantumAdvantage :: real
  circuitDepth :: int
  featureImportance :: "string \<rightharpoonup> real"
  uncertaintyEstimate :: real

record ExecutionStats =
  circuitExecutionTime :: real
  classicalPostProcessingTime :: real
  totalExecutionTime :: real
  convergenceIterations :: int

record QuantumPredictionResult =
  primaryPrediction :: PredictionSet
  alternativeSets :: "PredictionSet list"
  resultLotteryType :: LotteryType
  quantumMetrics :: QuantumMetrics
  executionStats :: ExecutionStats

text \<open>\<open>String.prototype.toUpperCase\<close> on ASCII letters.\<close>

definition toUpperCase :: "string \<Rightarrow> string" where
  "toUpperCase s =
     map (\<lambda>c. let n = (of_char c :: nat) in if 97 \<le> n \<and> n \<le> 122 then char_of (n - 32) else c) s"

text \<open>The decimal digits of a natural number, as a template literal prints it.\<close>

fun showNat :: "nat \<Rightarrow> string" where
  "showNat n =
     (if n < 10 then [char_of (48 + n)] else showNat (n div 10) @ [char_of (48 + n mod 10)])"

declare showNat.simps [simp del]

text \<open>
  The \<open>for\<close> loop of \<open>generatePrediction\<close> that fills \<open>alternativeSets\<close>: \<open>n\<close> iterations
  remain, \<open>k\<close> is the loop variable. The arguments of the call are evaluated left to right:
  the identifier, then \<open>getRandomStrategy()\<close>.
\<close>

fun alternativeSetsLoop ::
  "'d QuantumPredictionEngine \<Rightarrow> entropy \<Rightarrow> LotteryType \<Rightarrow> string \<Rightarrow> LotteryConfiguration \<Rightarrow>
     nat \<Rightarrow> nat \<Rightarrow> nat \<Rightarrow> PredictionSet list \<Rightarrow> (PredictionSet list \<times> nat) option" where
  "alternativeSetsLoop this e lotteryType targetDate lotteryConfig 0 k i sets = Some (sets, i)"
| "alternativeSetsLoop this e lotteryType targetDate lotteryConfig (Suc n) k i sets =
     (let psId = ''QF-'' @ toUpperCase lotteryType @ ''-'' @ targetDate @ ''-00'' @ showNat (k + 2);
          (strat, i1) = getRandomStrategy e i
      in case generatePredictionSet this e i1 psId strat lotteryType lotteryConfig of
           None \<Rightarrow> None
         | Some (ps, i2) \<Rightarrow>
             alternativeSetsLoop this e lotteryType targetDate lotteryConfig n (Suc k) i2
               (sets @ [ps]))"

text \<open>
  \<open>generatePrediction(lotteryType, targetDate)\<close>. The three reads of \<open>performance.now()\<close>
  return \<open>t0\<close>, \<open>t1\<close>, \<open>t2\<close>. The method is called on the object \<open>this\<close>; the result
  carries the engine as the call leaves it, and the position reached in the entropy stream.
  Neither the method nor a method it calls assigns to a field of \<open>this\<close>; the arrays that
  \<open>sort\<close> and \<open>push\<close> change in place are created within the call.
\<close>

definition generatePrediction ::
  "'d QuantumPredictionEngine \<Rightarrow> entropy \<Rightarrow> real \<times> real \<times> real \<Rightarrow> nat \<Rightarrow> LotteryType \<Rightarrow> string \<Rightarrow>
     (QuantumPredictionResult \<times> 'd QuantumPredictionEngine \<times> nat) option" where
  "generatePrediction this e clock i lotteryType targetDate =
     (case clock of (t0, t1, t2) \<Rightarrow>
      let startTime = t0;
          circuitTime = t1 + e i * 500;
          lotteryConfig = getLotteryConfiguration lotteryType
      in case generatePredictionSet this e (i + 1)
                (''QF-'' @ toUpperCase lotteryType @ ''-'' @ targetDate @ ''-001'')
                (Some ''Quantum Neural Convergence'') lotteryType lotteryConfig of
           None \<Rightarrow> None
         | Some (primary, i1) \<Rightarrow>
            (case alternativeSetsLoop this e lotteryType targetDate lotteryConfig
                    (nat (ensembleSize (config this))) 0 i1 [] of
               None \<Rightarrow> None
             | Some (alternatives, i2) \<Rightarrow>
                (let endTime = t2;
                     totalTime = endTime - startTime;
                     postProcessingTime = endTime - circuitTime;
                     (importance, i3) = generateFeatureImportance e i2 lotteryType
                 in Some
                     (\<lparr> primaryPrediction = primary,
                        alternativeSets = alternatives,
                        resultLotteryType = lotteryType,
                        quantumMetrics =
                          \<lparr> entanglementScore = 0.85 + e i3 * 0.1,
                            quantumAdvantage = 1.5 + e (i3 + 1) * 0.5,
                            circuitDepth =
                              quantumCircuitLayers (kernelParams (config this))
                                * entanglementDepth (kernelParams (config this)),
                            featureImportance = importance,
                            uncertaintyEstimate = 0.15 + e (i3 + 2) * 0.1 \<rparr>,
                        executionStats =
                          \<lparr> circuitExecutionTime = circuitTime - startTime,
                            classicalPostProcessingTime = postProcessingTime,
                            totalExecutionTime = totalTime,
                            convergenceIterations = \<lfloor>10 + e (i3 + 3) * 20\<rfloor> \<rparr> \<rparr>,
                      this, i3 + 4))))"

text \<open>\<open>setParameters(params)\<close>: \<open>this.config = { ...this.config, ...params }\<close>, the
  parameters given by their effect on the configuration.\<close>

definition setParameters ::
  "'d QuantumPredictionEngine \<Rightarrow> (QuantumPredictionConfig \<Rightarrow> QuantumPredictionConfig)
     \<Rightarrow> 'd QuantumPredictionEngine" where
  "setParameters this params = this\<lparr> config := params (config this) \<rparr>"

subsection \<open>Calls on the object store\<close>




















subsection \<open>Auxiliary notions for reasoning about the sampling loop\<close>

text \<open>The candidates computed by the first \<open>n\<close> iterations of the loop from position \<open>i\<close>.\<close>

fun candidates ::
  "entropy \<Rightarrow> LotteryConfiguration option \<Rightarrow> int \<Rightarrow> int \<Rightarrow> int \<Rightarrow> nat \<Rightarrow> nat \<Rightarrow> int list" where
  "candidates e lotteryConfig quantumCircuitDepth mn mx i 0 = []"
| "candidates e lotteryConfig quantumCircuitDepth mn mx i (Suc n) =
     candidate e lotteryConfig quantumCircuitDepth mn mx i
       # candidates e lotteryConfig quantumCircuitDepth mn mx (i + 3) n"

text \<open>The number of distinct values within \<open>[mn, mx]\<close> in a list of candidates.\<close>

definition distinctInRange :: "int \<Rightarrow> int \<Rightarrow> int list \<Rightarrow> nat" where
  "distinctInRange mn mx cs = length (remdups (filter (\<lambda>c. mn \<le> c \<and> c \<le> mx) cs))"

text \<open>
  The loop invariant: \<open>result\<close> is duplicate-free and within range, \<open>used\<close> marks exactly
  the elements of \<open>result\<close>, and \<open>result\<close> is not longer than requested.
\<close>

definition loopInv :: "int \<Rightarrow> int \<Rightarrow> int \<Rightarrow> int list \<Rightarrow> (int \<rightharpoonup> bool) \<Rightarrow> bool" where
  "loopInv actualCount mn mx result used \<longleftrightarrow>
     distinct result \<and> set result \<subseteq> {mn..mx} \<and> (\<forall>x. unused used x \<longleftrightarrow> x \<notin> set result)
     \<and> int (length result) \<le> max 0 actualCount"

subsection \<open>Construction of an engine\<close>

text \<open>
  \<open>initializeLotteryConfigurations\<close>: \<open>this.supportedLotteries.forEach(lotteryType =>
  this.lotteryConfigurations[lotteryType] = this.getLotteryConfiguration(lotteryType))\<close>.
\<close>

definition initializeLotteryConfigurations ::
  "'d QuantumPredictionEngine \<Rightarrow> store \<Rightarrow> 'd QuantumPredictionEngine" where
  "initializeLotteryConfigurations this st =
     fold (\<lambda>lotteryType this'.
             this'\<lparr> lotteryConfigurations :=
               (lotteryConfigurations this')(lotteryType \<mapsto> getLotteryConfiguration lotteryType) \<rparr>)
       (st ! supportedLotteries this) this"

text \<open>
  The constructor. Its argument \<open>Partial<QuantumPredictionConfig>\<close> is given by its effect
  \<open>overrides\<close> on the defaults (\<open>{ ...defaultQuantumConfig, ...config }\<close>); \<open>id\<close> is the
  empty object. The field initialiser allocates the array of supported lotteries.
\<close>

definition newQuantumPredictionEngine ::
  "(QuantumPredictionConfig \<Rightarrow> QuantumPredictionConfig) \<Rightarrow> store
     \<Rightarrow> 'd QuantumPredictionEngine \<times> store" where
  "newQuantumPredictionEngine overrides st =
     (let st' = st @ [[''emirates_mega7'', ''emirates_easy6'', ''us_powerball'',
                       ''euro_millions'', ''india_lotto'']];
          this = \<lparr> config = overrides defaultQuantumConfig, historicalData = Map.empty,
                   featureMatrix = [], supportedLotteries = length st,
                   lotteryConfigurations = Map.empty \<rparr>
      in (initializeLotteryConfigurations this st', st'))"

subsection \<open>Concrete inputs\<close>

text \<open>The engine \<open>new QuantumPredictionEngine()\<close>, created in an empty store.\<close>

definition defaultEngine :: "unit QuantumPredictionEngine" where
  "defaultEngine = fst (newQuantumPredictionEngine id [])"

text \<open>The store after \<open>new QuantumPredictionEngine()\<close>.\<close>

definition defaultStore :: store where
  "defaultStore = snd (newQuantumPredictionEngine id [] :: unit QuantumPredictionEngine \<times> store)"

text \<open>A generator whose \<open>Math.random()\<close> returns the listed values in order and then
  \<open>r\<close> forever.\<close>

definition replay :: "real list \<Rightarrow> real \<Rightarrow> entropy" where
  "replay rs r k = (if k < length rs then rs ! k else r)"

text \<open>Eighteen draws whose six candidates for the range \<open>[1, 6]\<close> are 1, 2, 3, 4, 5, 6.\<close>

definition sixDraws :: entropy where
  "sixDraws = replay [1/2, 1/3, 3/4,  1/2, 1/3, 2/3,  1/4, 1/3, 2/3,  0, 0, 0,
                      1/2, 1/3, 1/3,  1/2, 1/3, 1/4] 0"

text \<open>Three draws whose candidate for the range \<open>[1, 6]\<close> is 1, followed by zeros.\<close>

definition oneDraw :: entropy where
  "oneDraw = replay [1/2, 1/3, 3/4] 0"



text \<open>The default engine after \<open>setParameters({ ensembleSize: 0 })\<close>.\<close>

definition quickEngine :: "unit QuantumPredictionEngine" where
  "quickEngine = setParameters defaultEngine (\<lambda>c. c\<lparr> ensembleSize := 0 \<rparr>)"

text \<open>
  Draws for a whole run of \<open>generatePrediction\<close> on \<open>us_powerball\<close> with no alternative
  sets: one draw for the circuit time, five candidates 11, 18, 35, 52, 59 for \<open>[1, 69]\<close>,
  one candidate for the bonus number (chosen by the three draws \<open>b\<close>), three draws for
  rationale, confidence and expected value, and five draws of 1/2 for the feature importance.
\<close>

definition powerballDraws :: "real list \<Rightarrow> entropy" where
  "powerballDraws b =
     replay ([0,  1/2, 1/3, 3/4,  1/2, 1/3, 2/3,  0, 0, 0,  1/2, 1/3, 1/3,  1/2, 1/3, 1/4]
             @ b @ [0, 0, 0,  1/2, 1/2, 1/2, 1/2, 1/2]) 0"



section \<open>Properties\<close>

subsection \<open>Feature importance\<close>

lemma mapEntries_keys: "map fst (mapEntries e i xs) = map fst xs"
  by (induction e i xs rule: mapEntries.induct) simp_all

lemma mapEntries_clamped:
  "(k, v) \<in> set (mapEntries e i xs) \<Longrightarrow> 0.05 \<le> v \<and> v \<le> 0.95"
  by (induction e i xs rule: mapEntries.induct) (auto simp: min_def max_def variation_def)

lemma fromEntries_dom: "dom (fromEntries xs obj) = dom obj \<union> fst ` set xs"
proof (induction xs arbitrary: obj)
  case Nil
  show ?case by simp
next
  case (Cons a xs)
  obtain k v where a: "a = (k, v)" by (cases a)
  have "dom (fromEntries xs (obj(k \<mapsto> v))) = dom (obj(k \<mapsto> v)) \<union> fst ` set xs"
    by (rule Cons.IH)
  then show ?case by (simp add: a)
qed

lemma fromEntries_val:
  "fromEntries xs obj k = Some v \<Longrightarrow> obj k = Some v \<or> (k, v) \<in> set xs"
proof (induction xs arbitrary: obj)
  case Nil
  then show ?case by simp
next
  case (Cons a xs)
  obtain k' v' where a: "a = (k', v')" by (cases a)
  from Cons.prems have "fromEntries xs (obj(k' \<mapsto> v')) k = Some v" by (simp add: a)
  from Cons.IH [OF this] show ?case by (auto simp: a split: if_splits)
qed

text \<open>
  C10. Every value of the feature-importance mapping built by
  \<open>generateFeatureImportance\<close> lies in the closed interval [0.05, 0.95], whatever
  the random draws are.
\<close>

theorem featureImportance_clamped:
  "fst (generateFeatureImportance e i lotteryType) k = Some v \<Longrightarrow> 0.05 \<le> v \<and> v \<le> 0.95"
  unfolding generateFeatureImportance_def
  using fromEntries_val [of "mapEntries e i baseImportance" Map.empty k v]
    mapEntries_clamped [of k v e i baseImportance]
  by auto

theorem featureImportance_clamped_witness:
  "fst (generateFeatureImportance (replay [] 0) 0 ''emirates_mega7'') ''frequency'' = Some 0.25
     \<and> (0.05::real) \<le> 0.25 \<and> (0.25::real) \<le> 0.95"
proof -
  have h: "fst (generateFeatureImportance (replay [] 0) 0 ''emirates_mega7'') ''frequency'' = Some 0.25"
    by (simp add: generateFeatureImportance_def baseImportance_def variation_def replay_def)
  from featureImportance_clamped [OF h] h show ?thesis by simp
qed

subsection \<open>The sampling loop\<close>

lemma loopInv_init: "loopInv n mn mx [] Map.empty"
  by (simp add: loopInv_def unused_def)

lemma loopInv_step:
  assumes "loopInv n mn mx result used" "int (length result) < n"
    "mn \<le> num" "num \<le> mx" "unused used num"
  shows "loopInv n mn mx (result @ [num]) (used(num \<mapsto> True))"
  using assms by (auto simp: loopInv_def unused_def)

lemma samplingLoop_sound:
  assumes "samplingLoop e cfg d n mn mx i result used = Some y"
    and "loopInv n mn mx result used"
  shows "distinct (fst y) \<and> set (fst y) \<subseteq> {mn..mx} \<and> int (length (fst y)) = max 0 n \<and> i \<le> snd y"
proof -
  have "loopInv n mn mx result used \<longrightarrow>
     distinct (fst y) \<and> set (fst y) \<subseteq> {mn..mx} \<and> int (length (fst y)) = max 0 n \<and> i \<le> snd y"
  proof (rule samplingLoop.raw_induct [where P = "\<lambda>e cfg d n mn mx i result used y.
     loopInv n mn mx result used \<longrightarrow>
     distinct (fst y) \<and> set (fst y) \<subseteq> {mn..mx} \<and> int (length (fst y)) = max 0 n \<and> i \<le> snd y",
     OF _ assms(1)], intro impI)
    fix loop e cfg d n mn mx i result used y
    assume IH: "\<And>e cfg d n mn mx i result used y. loop e cfg d n mn mx i result used = Some y \<Longrightarrow>
      loopInv n mn mx result used \<longrightarrow>
      distinct (fst y) \<and> set (fst y) \<subseteq> {mn..mx} \<and> int (length (fst y)) = max 0 n \<and> i \<le> snd y"
    and body: "(if int (length result) < n then
        (let num = candidate e cfg d mn mx i
         in if mn \<le> num \<and> num \<le> mx \<and> unused used num
            then loop e cfg d n mn mx (i + 3) (result @ [num]) (used(num \<mapsto> True))
            else loop e cfg d n mn mx (i + 3) result used)
      else Some (result, i)) = Some y"
    and inv: "loopInv n mn mx result used"
    show "distinct (fst y) \<and> set (fst y) \<subseteq> {mn..mx} \<and> int (length (fst y)) = max 0 n \<and> i \<le> snd y"
    proof (cases "int (length result) < n")
      case False
      with body have "y = (result, i)" by simp
      with False inv show ?thesis by (auto simp: loopInv_def)
    next
      case True
      let ?num = "candidate e cfg d mn mx i"
      show ?thesis
      proof (cases "mn \<le> ?num \<and> ?num \<le> mx \<and> unused used ?num")
        case acc: True
        with True body have "loop e cfg d n mn mx (i + 3) (result @ [?num]) (used(?num \<mapsto> True)) = Some y"
          by (simp add: Let_def)
        from IH [OF this] loopInv_step [OF inv True] acc show ?thesis by simp
      next
        case rej: False
        with True body have "loop e cfg d n mn mx (i + 3) result used = Some y"
          by (simp add: Let_def)
        from IH [OF this] inv show ?thesis by simp
      qed
    qed
  qed
  with assms(2) show ?thesis by simp
qed


lemma distinctInRange_card: "distinctInRange mn mx cs = card (set cs \<inter> {mn..mx})"
proof -
  have "set (filter (\<lambda>c. mn \<le> c \<and> c \<le> mx) cs) = set cs \<inter> {mn..mx}" by auto
  then show ?thesis by (simp add: distinctInRange_def length_remdups_card_conv)
qed

lemma samplingLoop_complete:
  assumes "loopInv n mn mx result used"
    and "n - int (length result) \<le> int (card ((set (candidates e cfg d mn mx i N) \<inter> {mn..mx}) - set result))"
  shows "\<exists>y. samplingLoop e cfg d n mn mx i result used = Some y"
  using assms
proof (induction N arbitrary: i result used)
  case 0
  then have "\<not> int (length result) < n" by simp
  then show ?case by (subst samplingLoop.simps) simp
next
  case (Suc N)
  let ?num = "candidate e cfg d mn mx i"
  let ?A = "set (candidates e cfg d mn mx i (Suc N)) \<inter> {mn..mx}"
  let ?B = "set (candidates e cfg d mn mx (i + 3) N) \<inter> {mn..mx}"
  have A: "?A = (if mn \<le> ?num \<and> ?num \<le> mx then insert ?num ?B else ?B)" by auto
  show ?case
  proof (cases "int (length result) < n")
    case False
    then show ?thesis by (subst samplingLoop.simps) simp
  next
    case True
    show ?thesis
    proof (cases "mn \<le> ?num \<and> ?num \<le> mx \<and> unused used ?num")
      case acc: True
      have inv': "loopInv n mn mx (result @ [?num]) (used(?num \<mapsto> True))"
        using loopInv_step [OF Suc.prems(1) True] acc by simp
      have "?A - set result \<subseteq> insert ?num (?B - set (result @ [?num]))" using A by auto
      then have "card (?A - set result) \<le> card (insert ?num (?B - set (result @ [?num])))"
        by (intro card_mono) auto
      also have "\<dots> \<le> Suc (card (?B - set (result @ [?num])))"
        by (simp add: card_insert_if)
      finally have "n - int (length (result @ [?num])) \<le> int (card (?B - set (result @ [?num])))"
        using Suc.prems(2) by simp
      from Suc.IH [OF inv' this] obtain y where
        "samplingLoop e cfg d n mn mx (i + 3) (result @ [?num]) (used(?num \<mapsto> True)) = Some y" ..
      with True acc show ?thesis by (subst samplingLoop.simps) (simp add: Let_def)
    next
      case rej: False
      with Suc.prems(1) have "?num \<notin> {mn..mx} \<or> ?num \<in> set result"
        by (auto simp: loopInv_def)
      then have "?A - set result = ?B - set result" using A by auto
      with Suc.prems(2) have "n - int (length result) \<le> int (card (?B - set result))" by simp
      from Suc.IH [OF Suc.prems(1) this] obtain y where
        "samplingLoop e cfg d n mn mx (i + 3) result used = Some y" ..
      with True rej show ?thesis by (subst samplingLoop.simps) (auto simp: Let_def)
    qed
  qed
qed


lemma samplingLoop_needs:
  assumes "samplingLoop e cfg d n mn mx i result used = Some y"
    and "loopInv n mn mx result used"
  shows "\<exists>N. n - int (length result)
           \<le> int (card ((set (candidates e cfg d mn mx i N) \<inter> {mn..mx}) - set result))"
proof -
  have "loopInv n mn mx result used \<longrightarrow> (\<exists>N. n - int (length result)
           \<le> int (card ((set (candidates e cfg d mn mx i N) \<inter> {mn..mx}) - set result)))"
  proof (rule samplingLoop.raw_induct [where P = "\<lambda>e cfg d n mn mx i result used y.
     loopInv n mn mx result used \<longrightarrow> (\<exists>N. n - int (length result)
           \<le> int (card ((set (candidates e cfg d mn mx i N) \<inter> {mn..mx}) - set result)))",
     OF _ assms(1)], intro impI)
    fix loop e cfg d n mn mx i result used and y :: "int list \<times> nat"
    assume IH: "\<And>e cfg d n mn mx i result used y. loop e cfg d n mn mx i result used = Some y \<Longrightarrow>
      loopInv n mn mx result used \<longrightarrow> (\<exists>N. n - int (length result)
           \<le> int (card ((set (candidates e cfg d mn mx i N) \<inter> {mn..mx}) - set result)))"
    and body: "(if int (length result) < n then
        (let num = candidate e cfg d mn mx i
         in if mn \<le> num \<and> num \<le> mx \<and> unused used num
            then loop e cfg d n mn mx (i + 3) (result @ [num]) (used(num \<mapsto> True))
            else loop e cfg d n mn mx (i + 3) result used)
      else Some (result, i)) = Some y"
    and inv: "loopInv n mn mx result used"
    let ?num = "candidate e cfg d mn mx i"
    let ?A = "\<lambda>N. set (candidates e cfg d mn mx i N) \<inter> {mn..mx}"
    let ?B = "\<lambda>N. set (candidates e cfg d mn mx (i + 3) N) \<inter> {mn..mx}"
    have A: "?A (Suc N) = (if mn \<le> ?num \<and> ?num \<le> mx then insert ?num (?B N) else ?B N)" for N
      by auto
    show "\<exists>N. n - int (length result) \<le> int (card (?A N - set result))"
    proof (cases "int (length result) < n")
      case False
      then have "n - int (length result) \<le> int (card (?A 0 - set result))" by simp
      then show ?thesis ..
    next
      case True
      show ?thesis
      proof (cases "mn \<le> ?num \<and> ?num \<le> mx \<and> unused used ?num")
        case acc: True
        with True body have "loop e cfg d n mn mx (i + 3) (result @ [?num]) (used(?num \<mapsto> True)) = Some y"
          by (simp add: Let_def)
        from IH [OF this] loopInv_step [OF inv True] acc obtain N where
          N: "n - int (length (result @ [?num])) \<le> int (card (?B N - set (result @ [?num])))"
          by auto
        from acc inv have fresh: "?num \<notin> set result" by (auto simp: loopInv_def)
        define S where "S = ?B N - set (result @ [?num])"
        have eq: "?A (Suc N) - set result = insert ?num S"
          unfolding S_def using A [of N] acc fresh by auto
        have "finite S" "?num \<notin> S" by (simp_all add: S_def)
        then have "card (insert ?num S) = Suc (card S)" by (rule card_insert_disjoint)
        with eq have "card (?A (Suc N) - set result) = Suc (card (?B N - set (result @ [?num])))"
          by (simp add: S_def)
        with N have "n - int (length result) \<le> int (card (?A (Suc N) - set result))" by simp
        then show ?thesis ..
      next
        case rej: False
        with True body have "loop e cfg d n mn mx (i + 3) result used = Some y"
          by (auto simp: Let_def)
        from IH [OF this] inv obtain N where
          N: "n - int (length result) \<le> int (card (?B N - set result))" by auto
        have "?B N - set result \<subseteq> ?A (Suc N) - set result" using A [of N] by auto
        then have "card (?B N - set result) \<le> card (?A (Suc N) - set result)"
          by (intro card_mono) auto
        with N have "n - int (length result) \<le> int (card (?A (Suc N) - set result))" by simp
        then show ?thesis ..
      qed
    qed
  qed
  with assms(2) show ?thesis by simp
qed

lemma candidate_None:
  "candidate e None d mn mx i = candidate e None d' mn mx i"
  by (simp add: candidate_def)

lemma candidates_None:
  "candidates e None d mn mx i N = candidates e None d' mn mx i N"
  by (induction N arbitrary: i) (simp_all add: candidate_None [of e d mn mx _ d'])

lemma candidates_subset:
  "(\<And>k. candidate e cfg d mn mx (i + 3 * k) \<in> S) \<Longrightarrow> set (candidates e cfg d mn mx i N) \<subseteq> S"
proof (induction N arbitrary: i)
  case 0
  show ?case by simp
next
  case (Suc N)
  have "candidate e cfg d mn mx ((i + 3) + 3 * k) \<in> S" for k
    using Suc.prems [of "Suc k"] by (simp add: add.assoc)
  from Suc.IH [OF this] Suc.prems [of 0] show ?case by simp
qed

lemma generateQuantumRandomNumbers_sound:
  assumes "generateQuantumRandomNumbers this e i count mn mx lotteryType = Some (ys, j)"
  shows "distinct ys \<and> set ys \<subseteq> {mn..mx}
           \<and> int (length ys) = max 0 (min count (mx - mn + 1)) \<and> i \<le> j"
  using assms samplingLoop_sound [OF _ loopInv_init]
  unfolding generateQuantumRandomNumbers_def Let_def by fastforce

lemma sampleUnique_sound:
  assumes "sampleUnique this e i count mn mx = Some ys"
  shows "distinct ys \<and> set ys \<subseteq> {mn..mx} \<and> sorted ys
           \<and> int (length ys) = max 0 (min count (mx - mn + 1))"
proof -
  from assms obtain zs j where
    g: "generateQuantumRandomNumbers this e i count mn mx None = Some (zs, j)" and ys: "ys = sort zs"
    by (auto simp: sampleUnique_def)
  from generateQuantumRandomNumbers_sound [OF g] show ?thesis by (simp add: ys)
qed

lemma sampleUnique_returns:
  "sampleUnique this e i count mn mx \<noteq> None \<longleftrightarrow>
     (\<exists>N. min count (mx - mn + 1) \<le> int (distinctInRange mn mx (candidates e None d mn mx i N)))"
proof -
  let ?d = "quantumCircuitLayers (kernelParams (config this))
              * entanglementDepth (kernelParams (config this))"
  let ?n = "min count (mx - mn + 1)"
  let ?loop = "samplingLoop e None ?d ?n mn mx i [] Map.empty"
  have s: "sampleUnique this e i count mn mx = map_option (\<lambda>(numbers, i'). sort numbers) ?loop"
    by (simp add: sampleUnique_def generateQuantumRandomNumbers_def Let_def)
  have c: "candidates e None ?d mn mx i N = candidates e None d mn mx i N" for N
    by (rule candidates_None)
  show ?thesis
  proof
    assume "sampleUnique this e i count mn mx \<noteq> None"
    then obtain y where "?loop = Some y" by (auto simp: s)
    from samplingLoop_needs [OF this loopInv_init] show
      "\<exists>N. ?n \<le> int (distinctInRange mn mx (candidates e None d mn mx i N))"
      by (simp add: distinctInRange_card c)
  next
    assume "\<exists>N. ?n \<le> int (distinctInRange mn mx (candidates e None d mn mx i N))"
    then obtain N where
      "?n - int (length ([]::int list))
         \<le> int (card (set (candidates e None ?d mn mx i N) \<inter> {mn..mx} - set []))"
      by (auto simp: distinctInRange_card c)
    from samplingLoop_complete [OF loopInv_init this]
    show "sampleUnique this e i count mn mx \<noteq> None" by (auto simp: s)
  qed
qed

lemma sampleUnique_stuck:
  assumes S: "finite S" "\<And>k. candidate e None d mn mx (i + 3 * k) \<in> S"
    and few: "int (card (S \<inter> {mn..mx})) < min count (mx - mn + 1)"
  shows "sampleUnique this e i count mn mx = None"
proof (rule ccontr)
  assume "sampleUnique this e i count mn mx \<noteq> None"
  then obtain N where
    N: "min count (mx - mn + 1) \<le> int (distinctInRange mn mx (candidates e None d mn mx i N))"
    unfolding sampleUnique_returns [of this e i count mn mx d] ..
  have "set (candidates e None d mn mx i N) \<inter> {mn..mx} \<subseteq> S \<inter> {mn..mx}"
    using candidates_subset [of e None d mn mx i S N] S(2) by auto
  then have "card (set (candidates e None d mn mx i N) \<inter> {mn..mx}) \<le> card (S \<inter> {mn..mx})"
    using S(1) by (intro card_mono) auto
  with N few show False by (simp add: distinctInRange_card)
qed

lemma full_range_sorted:
  assumes "distinct ys" "set ys \<subseteq> {mn..mx}" "sorted ys" "int (length ys) = max 0 (mx - mn + 1)"
  shows "ys = [mn..mx]"
proof -
  have "card (set ys) = card {mn..mx}"
    using assms(1,4) by (simp add: distinct_card)
  with assms(2) have "set ys = {mn..mx}" by (intro card_subset_eq) auto
  then have "set ys = set [mn..mx]" by simp
  with assms(1,3) show ?thesis
    by (intro sorted_distinct_set_unique) simp_all
qed

subsection \<open>Evaluation at concrete draws\<close>

lemma sin_pi_12_bounds: "0 < sin (pi / 12)" "sin (pi / 12) < 1 / 3"
proof -
  show "0 < sin (pi / 12)" by (rule sin_gt_zero) (use pi_gt_zero in simp_all)
  have "sin (pi / 12) \<le> pi / 12" by (rule sin_x_le_x) simp
  also have "\<dots> < 1 / 3" using pi_less_4 by simp
  finally show "sin (pi / 12) < 1 / 3" .
qed

lemma sqrt_2_decimal: "7 / 5 \<le> sqrt 2" "sqrt 2 < 142 / 100"
proof -
  show "7 / 5 \<le> sqrt 2" by (rule real_le_rsqrt) (simp add: power2_eq_square)
  show "sqrt 2 < 142 / 100" by (rule real_less_lsqrt) (simp_all add: power2_eq_square)
qed

lemma cos_135: "cos (3 * pi / 4) = - (sqrt 2 / 2)"
proof -
  have "cos (3 * pi / 4) = cos (pi - pi / 4)" by simp
  also have "\<dots> = - cos (pi / 4)" by (rule cos_pi_minus)
  finally show ?thesis by (simp add: cos_45)
qed

lemma sixDraws_candidates:
  "candidate sixDraws None d 1 6 0 = 1"
  "candidate sixDraws None d 1 6 3 = 2"
  "candidate sixDraws None d 1 6 6 = 3"
  "candidate sixDraws None d 1 6 9 = 4"
  "candidate sixDraws None d 1 6 12 = 5"
  "candidate sixDraws None d 1 6 15 = 6"
proof -
  show "candidate sixDraws None d 1 6 0 = 1"
    unfolding candidate_def Let_def floor_eq_iff
    using sqrt_2_decimal by (simp add: sixDraws_def replay_def cos_135 sin_30)
  show "candidate sixDraws None d 1 6 3 = 2"
    by (simp add: candidate_def sixDraws_def replay_def cos_120 sin_30)
  show "candidate sixDraws None d 1 6 9 = 4"
    by (simp add: candidate_def sixDraws_def replay_def)
  show "candidate sixDraws None d 1 6 12 = 5"
    by (simp add: candidate_def sixDraws_def replay_def cos_60 sin_30)
  show "candidate sixDraws None d 1 6 6 = 3"
    unfolding candidate_def Let_def floor_eq_iff
    using sin_pi_12_bounds by (simp add: sixDraws_def replay_def cos_120)
  show "candidate sixDraws None d 1 6 15 = 6"
    unfolding candidate_def Let_def floor_eq_iff
    using sqrt_2_decimal by (simp add: sixDraws_def replay_def cos_45 sin_30)
qed

lemma sixDraws_supply: "distinctInRange 1 6 (candidates sixDraws None d 1 6 0 6) = 6"
proof -
  have "candidates sixDraws None d 1 6 0 (Suc (Suc (Suc (Suc (Suc (Suc 0)))))) = [1, 2, 3, 4, 5, 6]"
    by (simp add: sixDraws_candidates)
  then show ?thesis by (simp add: distinctInRange_def eval_nat_numeral)
qed

lemma zeros_candidate: "candidate (replay [] 0) None d mn mx i = \<lfloor>real_of_int mn + real_of_int (mx - mn + 1) / 2\<rfloor>"
  by (simp add: candidate_def replay_def)

lemma oneDraw_candidate: "candidate oneDraw None d 1 6 (3 * k) \<in> {1, 4}"
proof (cases k)
  case 0
  then show ?thesis
    unfolding candidate_def Let_def
    using sqrt_2_decimal
    by (simp add: oneDraw_def replay_def cos_135 sin_30 floor_eq_iff)
next
  case (Suc k')
  then show ?thesis by (simp add: candidate_def oneDraw_def replay_def)
qed

subsection \<open>The other samplers: no validation, no bound on the iterations\<close>

text \<open>
  The two other samplers neither raise an error nor limit the requested count: a request
  for more numbers than the range holds never returns, a non-positive count gives the empty
  list, and \<open>generateUniqueRandomNumbers\<close> with \<open>max < min\<close> can return a number outside
  the bounds.
\<close>

lemma unit_draw_in_range:
  assumes "0 \<le> r" "r < 1" "1 \<le> n"
  shows "0 \<le> \<lfloor>r * real_of_int n\<rfloor>" "\<lfloor>r * real_of_int n\<rfloor> < n"
proof -
  from assms show "0 \<le> \<lfloor>r * real_of_int n\<rfloor>" by simp
  from assms have "r * real_of_int n < 1 * real_of_int n"
    by (intro mult_strict_right_mono) simp_all
  then show "\<lfloor>r * real_of_int n\<rfloor> < n" by (simp add: floor_less_iff)
qed

lemma distinct_in_range_length:
  assumes "distinct nums" "set nums \<subseteq> {lo..hi}"
  shows "int (length nums) \<le> max 0 (hi - lo + 1)"
proof -
  have "length nums = card (set nums)" using assms(1) by (simp add: distinct_card)
  also have "\<dots> \<le> card {lo..hi}" using assms(2) by (intro card_mono) simp_all
  finally show ?thesis by simp
qed

lemma generateNumbers_empty:
  "count \<le> 0 \<Longrightarrow> generateNumbers e i count mx = Some ([], i)"
  unfolding generateNumbers_def by (subst generateNumbersLoop.simps) simp

lemma generateNumbersLoop_diverges:
  assumes draws: "\<And>k. 0 \<le> e k \<and> e k < 1" and range: "1 \<le> mx" "mx < count"
    and inv: "distinct nums" "set nums \<subseteq> {1..mx}"
  shows "generateNumbersLoop e count mx i nums = None"
proof (rule ccontr)
  assume "generateNumbersLoop e count mx i nums \<noteq> None"
  then obtain y where y: "generateNumbersLoop e count mx i nums = Some y" by auto
  have "\<not> (distinct nums \<and> set nums \<subseteq> {1..mx}
            \<and> (\<forall>k. 0 \<le> e k \<and> e k < 1) \<and> 1 \<le> mx \<and> mx < count)"
  proof (rule generateNumbersLoop.raw_induct [where P = "\<lambda>e count mx i nums y.
      \<not> (distinct nums \<and> set nums \<subseteq> {1..mx}
            \<and> (\<forall>k. 0 \<le> e k \<and> e k < 1) \<and> 1 \<le> mx \<and> mx < count)", OF _ y])
    fix loop e count mx i nums and y :: "int list \<times> nat"
    assume IH: "\<And>e count mx i nums y. loop e count mx i nums = Some y \<Longrightarrow>
        \<not> (distinct nums \<and> set nums \<subseteq> {1..mx}
            \<and> (\<forall>k. 0 \<le> e k \<and> e k < 1) \<and> 1 \<le> mx \<and> mx < count)"
      and body: "(if int (length nums) < count then
          (let num = \<lfloor>e i * real_of_int mx\<rfloor> + 1
           in if num \<notin> set nums then loop e count mx (i + 1) (nums @ [num])
              else loop e count mx (i + 1) nums)
        else Some (nums, i)) = Some y"
    show "\<not> (distinct nums \<and> set nums \<subseteq> {1..mx}
            \<and> (\<forall>k. 0 \<le> e k \<and> e k < 1) \<and> 1 \<le> mx \<and> mx < count)"
    proof
      assume a: "distinct nums \<and> set nums \<subseteq> {1..mx}
            \<and> (\<forall>k. 0 \<le> e k \<and> e k < 1) \<and> 1 \<le> mx \<and> mx < count"
      let ?num = "\<lfloor>e i * real_of_int mx\<rfloor> + 1"
      from a distinct_in_range_length [of nums 1 mx] have "int (length nums) < count" by simp
      moreover from a unit_draw_in_range [of "e i" mx] have "?num \<in> {1..mx}" by simp
      ultimately have "loop e count mx (i + 1) (if ?num \<notin> set nums then nums @ [?num] else nums)
          = Some y"
        using body by (simp add: Let_def split: if_splits)
      from IH [OF this] a \<open>?num \<in> {1..mx}\<close> show False by (auto split: if_splits)
    qed
  qed
  with assms show False by blast
qed

lemma generateNumbers_diverges:
  assumes "\<And>k. 0 \<le> e k \<and> e k < 1" "1 \<le> mx" "mx < count"
  shows "generateNumbers e i count mx = None"
  unfolding generateNumbers_def
  using generateNumbersLoop_diverges [OF assms, where nums = "[]" and i = i] by simp


lemma generateUniqueRandomNumbers_empty:
  "count \<le> 0 \<Longrightarrow> generateUniqueRandomNumbers e i mn mx count = Some ([], i)"
  unfolding generateUniqueRandomNumbers_def
  by (subst generateUniqueRandomNumbersLoop.simps) simp

lemma generateUniqueRandomNumbers_inverted_bounds:
  "generateUniqueRandomNumbers (replay [] 0) 0 5 3 1 = Some ([5], 1)"
  unfolding generateUniqueRandomNumbers_def
  by (subst generateUniqueRandomNumbersLoop.simps, simp add: replay_def,
      subst generateUniqueRandomNumbersLoop.simps, simp)

lemma generateUniqueRandomNumbersLoop_diverges:
  assumes draws: "\<And>k. 0 \<le> e k \<and> e k < 1" and range: "mn \<le> mx" "mx - mn + 1 < count"
    and inv: "distinct nums" "set nums \<subseteq> {mn..mx}"
  shows "generateUniqueRandomNumbersLoop e mn mx count i nums = None"
proof (rule ccontr)
  assume "generateUniqueRandomNumbersLoop e mn mx count i nums \<noteq> None"
  then obtain y where y: "generateUniqueRandomNumbersLoop e mn mx count i nums = Some y" by auto
  have "\<not> (distinct nums \<and> set nums \<subseteq> {mn..mx}
            \<and> (\<forall>k. 0 \<le> e k \<and> e k < 1) \<and> mn \<le> mx \<and> mx - mn + 1 < count)"
  proof (rule generateUniqueRandomNumbersLoop.raw_induct [where P = "\<lambda>e mn mx count i nums y.
      \<not> (distinct nums \<and> set nums \<subseteq> {mn..mx}
            \<and> (\<forall>k. 0 \<le> e k \<and> e k < 1) \<and> mn \<le> mx \<and> mx - mn + 1 < count)", OF _ y])
    fix loop e mn mx count i nums and y :: "int list \<times> nat"
    assume IH: "\<And>e mn mx count i nums y. loop e mn mx count i nums = Some y \<Longrightarrow>
        \<not> (distinct nums \<and> set nums \<subseteq> {mn..mx}
            \<and> (\<forall>k. 0 \<le> e k \<and> e k < 1) \<and> mn \<le> mx \<and> mx - mn + 1 < count)"
      and body: "(if int (length nums) < count then
          (let num = \<lfloor>e i * real_of_int (mx - mn + 1)\<rfloor> + mn
           in loop e mn mx count (i + 1) (if num \<in> set nums then nums else nums @ [num]))
        else Some (nums, i)) = Some y"
    show "\<not> (distinct nums \<and> set nums \<subseteq> {mn..mx}
            \<and> (\<forall>k. 0 \<le> e k \<and> e k < 1) \<and> mn \<le> mx \<and> mx - mn + 1 < count)"
    proof
      assume a: "distinct nums \<and> set nums \<subseteq> {mn..mx}
            \<and> (\<forall>k. 0 \<le> e k \<and> e k < 1) \<and> mn \<le> mx \<and> mx - mn + 1 < count"
      let ?num = "\<lfloor>e i * real_of_int (mx - mn + 1)\<rfloor> + mn"
      from a distinct_in_range_length [of nums mn mx] have lt: "int (length nums) < count" by simp
      from a unit_draw_in_range [of "e i" "mx - mn + 1"] have num: "?num \<in> {mn..mx}" by simp
      define nums' where "nums' = (if ?num \<in> set nums then nums else nums @ [?num])"
      from lt body have "loop e mn mx count (i + 1) nums' = Some y"
        unfolding nums'_def Let_def by (simp only: if_True)
      moreover from a num have "distinct nums' \<and> set nums' \<subseteq> {mn..mx}"
        by (auto simp: nums'_def)
      ultimately show False using IH [of e mn mx count "i + 1" nums' y] a by blast
    qed
  qed
  with assms show False by blast
qed

lemma generateUniqueRandomNumbers_diverges:
  assumes "\<And>k. 0 \<le> e k \<and> e k < 1" "mn \<le> mx" "mx - mn + 1 < count"
  shows "generateUniqueRandomNumbers e i mn mx count = None"
  unfolding generateUniqueRandomNumbers_def
  using generateUniqueRandomNumbersLoop_diverges [OF assms, where nums = "[]" and i = i] by simp

subsection \<open>Claims about the sampler\<close>

lemma samplingLoop_exit:
  "\<not> int (length result) < n \<Longrightarrow> samplingLoop e cfg d n mn mx i result used = Some (result, i)"
  by (subst samplingLoop.simps) simp

lemma generateQuantumRandomNumbers_empty:
  assumes "mx < mn \<or> count \<le> 0"
  shows "generateQuantumRandomNumbers this e i count mn mx lotteryType = Some ([], i)"
proof -
  from assms have "\<not> int (length ([]::int list)) < min count (mx - mn + 1)" by auto
  then show ?thesis
    unfolding generateQuantumRandomNumbers_def Let_def by (rule samplingLoop_exit)
qed

text \<open>
  C1 (amended). For every valid request, \<open>0 < count \<le> max - min + 1\<close>, and every
  entropy source whose first \<open>N\<close> candidates, for some \<open>N\<close>, contain at least \<open>count\<close>
  distinct values within \<open>[min, max]\<close>, \<open>sampleUnique\<close> returns a sequence of exactly
  \<open>count\<close> pairwise distinct elements of \<open>[min, max]\<close> in ascending order; and for a
  valid request, whatever the entropy source, a call that returns has returned such a
  sequence.
\<close>

theorem sampleUnique_valid_request:
  assumes "0 < count" "count \<le> mx - mn + 1"
    and "count \<le> int (distinctInRange mn mx (candidates e None d mn mx i N))"
  shows "(\<exists>ys. sampleUnique this e i count mn mx = Some ys \<and> int (length ys) = count
            \<and> distinct ys \<and> set ys \<subseteq> {mn..mx} \<and> sorted ys)
         \<and> (\<forall>e' i' zs. sampleUnique this e' i' count mn mx = Some zs
               \<longrightarrow> int (length zs) = count \<and> distinct zs \<and> set zs \<subseteq> {mn..mx} \<and> sorted zs)"
proof -
  have sound: "int (length zs) = count \<and> distinct zs \<and> set zs \<subseteq> {mn..mx} \<and> sorted zs"
    if "sampleUnique this e' i' count mn mx = Some zs" for e' i' zs
    using sampleUnique_sound [OF that] assms(1,2) by simp
  from assms have "\<exists>N. min count (mx - mn + 1)
      \<le> int (distinctInRange mn mx (candidates e None d mn mx i N))"
    by (intro exI [of _ N]) simp
  then have "sampleUnique this e i count mn mx \<noteq> None"
    unfolding sampleUnique_returns [of this e i count mn mx d] .
  then obtain ys where ys: "sampleUnique this e i count mn mx = Some ys" by auto
  with sound [OF ys] have "\<exists>ys. sampleUnique this e i count mn mx = Some ys
      \<and> int (length ys) = count \<and> distinct ys \<and> set ys \<subseteq> {mn..mx} \<and> sorted ys"
    by simp
  with sound show ?thesis by blast
qed

theorem sampleUnique_valid_request_witness:
  "\<exists>ys. sampleUnique defaultEngine sixDraws 0 3 1 6 = Some ys \<and> int (length ys) = 3
           \<and> distinct ys \<and> set ys \<subseteq> {1..6} \<and> sorted ys"
proof -
  have "(3::int) \<le> int (distinctInRange 1 6 (candidates sixDraws None 0 1 6 0 6))"
    by (simp add: sixDraws_supply)
  from sampleUnique_valid_request [of 3 6 1 sixDraws 0 0 6 defaultEngine, THEN conjunct1] this
  show ?thesis by simp
qed

theorem sampleUnique_valid_request_diverges:
  "sampleUnique defaultEngine (replay [] 0) 0 2 1 2 = None"
  by (rule sampleUnique_stuck [of "{2}" _ 0]) (simp_all add: zeros_candidate)

text \<open>
  C2 (amended). For every request with \<open>count > max - min + 1\<close> the sampler raises no
  error: it replaces \<open>count\<close> by \<open>max - min + 1\<close> and behaves exactly as for that
  request, so a call that returns yields the whole range \<open>[min, max]\<close>, which has fewer
  than \<open>count\<close> elements.
\<close>

theorem sampleUnique_clamps_count:
  assumes "mx - mn + 1 < count"
  shows "generateQuantumRandomNumbers this e i count mn mx lotteryType
           = generateQuantumRandomNumbers this e i (mx - mn + 1) mn mx lotteryType
         \<and> sampleUnique this e i count mn mx = sampleUnique this e i (mx - mn + 1) mn mx
         \<and> (\<forall>ys. sampleUnique this e i count mn mx = Some ys
               \<longrightarrow> ys = [mn..mx] \<and> (0 < count \<longrightarrow> int (length ys) < count))"
proof -
  from assms have m: "min count (mx - mn + 1) = mx - mn + 1" by simp
  have g: "generateQuantumRandomNumbers this e i count mn mx t
           = generateQuantumRandomNumbers this e i (mx - mn + 1) mn mx t" for t
    by (simp add: generateQuantumRandomNumbers_def m)
  have "ys = [mn..mx] \<and> (0 < count \<longrightarrow> int (length ys) < count)"
    if ys: "sampleUnique this e i count mn mx = Some ys" for ys
  proof -
    from sampleUnique_sound [OF ys] have
      p: "distinct ys" "set ys \<subseteq> {mn..mx}" "sorted ys" "int (length ys) = max 0 (mx - mn + 1)"
      by (simp_all add: m)
    from full_range_sorted [OF p] have "ys = [mn..mx]" .
    moreover from assms p(4) have "0 < count \<longrightarrow> int (length ys) < count" by auto
    ultimately show ?thesis ..
  qed
  with g show ?thesis by (simp add: sampleUnique_def)
qed


theorem sampleUnique_clamps_count_witness:
  "(6::int) - 1 + 1 < 8 \<and> sampleUnique defaultEngine sixDraws 0 8 1 6 = Some [1..6]
     \<and> sampleUnique defaultEngine sixDraws 0 8 1 6 = sampleUnique defaultEngine sixDraws 0 6 1 6"
proof -
  have "\<exists>N. min 8 (6 - 1 + 1) \<le> int (distinctInRange 1 6 (candidates sixDraws None 0 1 6 0 N))"
    by (intro exI [of _ 6]) (simp add: sixDraws_supply)
  then have "sampleUnique defaultEngine sixDraws 0 8 1 6 \<noteq> None"
    unfolding sampleUnique_returns [of defaultEngine sixDraws 0 8 1 6 0] .
  then obtain ys where ys: "sampleUnique defaultEngine sixDraws 0 8 1 6 = Some ys" by auto
  have c: "(6::int) - 1 + 1 < 8" by simp
  from sampleUnique_clamps_count [OF c, of defaultEngine sixDraws 0 None]
  have "sampleUnique defaultEngine sixDraws 0 8 1 6 = sampleUnique defaultEngine sixDraws 0 (6 - 1 + 1) 1 6"
    and "\<forall>ys. sampleUnique defaultEngine sixDraws 0 8 1 6 = Some ys \<longrightarrow> ys = [1..6]"
    by blast+
  with ys c show ?thesis by auto
qed

theorem sampleUnique_no_range_error:
  "sampleUnique defaultEngine sixDraws 0 8 1 6 = Some [1, 2, 3, 4, 5, 6]"
proof -
  have "\<exists>N. min 8 (6 - 1 + 1) \<le> int (distinctInRange 1 6 (candidates sixDraws None 0 1 6 0 N))"
    by (intro exI [of _ 6]) (simp add: sixDraws_supply)
  then have "sampleUnique defaultEngine sixDraws 0 8 1 6 \<noteq> None"
    unfolding sampleUnique_returns [of defaultEngine sixDraws 0 8 1 6 0] .
  then obtain ys where ys: "sampleUnique defaultEngine sixDraws 0 8 1 6 = Some ys" by auto
  from sampleUnique_sound [OF ys] have "ys = [1..6]"
    by (intro full_range_sorted) simp_all
  also have "[1..6] = [1, 2, 3, 4, 5, 6::int]" by (simp add: upto.simps)
  finally show ?thesis using ys by simp
qed

text \<open>
  C3 (amended). For every request with \<open>max < min\<close> or \<open>count \<le> 0\<close> the sampler raises
  no error: it returns the empty sequence at once, without drawing from the entropy source.
\<close>

theorem sampleUnique_degenerate_empty:
  assumes "mx < mn \<or> count \<le> 0"
  shows "generateQuantumRandomNumbers this e i count mn mx lotteryType = Some ([], i)
         \<and> sampleUnique this e i count mn mx = Some []"
  by (simp add: sampleUnique_def generateQuantumRandomNumbers_empty [OF assms])

theorem sampleUnique_degenerate_empty_witness:
  "((1::int) < 6 \<or> (3::int) \<le> 0)
     \<and> generateQuantumRandomNumbers defaultEngine sixDraws 0 3 6 1 (Some ''us_powerball'') = Some ([], 0)
     \<and> sampleUnique defaultEngine sixDraws 0 3 6 1 = Some []"
  using sampleUnique_degenerate_empty [of 1 6 3 defaultEngine sixDraws 0 "Some ''us_powerball''"]
  by simp

theorem sampleUnique_no_bounds_error:
  "sampleUnique defaultEngine sixDraws 0 0 1 6 = Some []
     \<and> sampleUnique defaultEngine sixDraws 0 2 6 1 = Some []"
  by (simp add: sampleUnique_def generateQuantumRandomNumbers_empty)

text \<open>
  C4 (amended). For every request with \<open>count = max - min + 1\<close> and every entropy
  source whose first \<open>N\<close> candidates, for some \<open>N\<close>, contain every value of
  \<open>[min, max]\<close>, \<open>sampleUnique\<close> returns exactly the range \<open>[min, max]\<close> in ascending
  order; for such a source \<open>sampleUnique(6, 1, 6)\<close> returns \<open>[1, 2, 3, 4, 5, 6]\<close>. Whatever
  the entropy source, a call with \<open>count = max - min + 1\<close> that returns has returned
  \<open>[min, max]\<close>.
\<close>

theorem sampleUnique_full_range:
  assumes "count = mx - mn + 1"
    and "count \<le> int (distinctInRange mn mx (candidates e None d mn mx i N))"
  shows "sampleUnique this e i count mn mx = Some [mn..mx]
         \<and> (\<forall>e' i' zs. sampleUnique this e' i' count mn mx = Some zs \<longrightarrow> zs = [mn..mx])"
proof -
  have sound: "zs = [mn..mx]" if "sampleUnique this e' i' count mn mx = Some zs" for e' i' zs
    using sampleUnique_sound [OF that] assms(1) by (intro full_range_sorted) simp_all
  from assms have "\<exists>N. min count (mx - mn + 1)
      \<le> int (distinctInRange mn mx (candidates e None d mn mx i N))"
    by (intro exI [of _ N]) simp
  then have "sampleUnique this e i count mn mx \<noteq> None"
    unfolding sampleUnique_returns [of this e i count mn mx d] .
  then obtain ys where ys: "sampleUnique this e i count mn mx = Some ys" by auto
  with sound [OF ys] have "sampleUnique this e i count mn mx = Some [mn..mx]" by simp
  with sound show ?thesis by blast
qed

theorem sampleUnique_full_range_witness:
  "sampleUnique defaultEngine sixDraws 0 6 1 6 = Some [1, 2, 3, 4, 5, 6]"
proof -
  have "(6::int) \<le> int (distinctInRange 1 6 (candidates sixDraws None 0 1 6 0 6))"
    by (simp add: sixDraws_supply)
  from sampleUnique_full_range [of 6 6 1 sixDraws 0 0 6 defaultEngine, THEN conjunct1] this
  have "sampleUnique defaultEngine sixDraws 0 6 1 6 = Some [1..6]" by simp
  moreover have "[1..6] = [1, 2, 3, 4, 5, 6::int]" by (simp add: upto.simps)
  ultimately show ?thesis by simp
qed

theorem sampleUnique_full_range_diverges:
  "sampleUnique defaultEngine oneDraw 0 6 1 6 = None"
proof (rule sampleUnique_stuck [of "{1, 4}" _ 0])
  show "candidate oneDraw None 0 1 6 (0 + 3 * k) \<in> {1, 4}" for k
    using oneDraw_candidate [of 0 k] by simp
qed simp_all

text \<open>
  C5 (amended). The sampler has no deterministic fallback: for every request it is a
  rejection loop, and it terminates exactly when the first \<open>N\<close> candidates computed from
  the entropy source, for some \<open>N\<close>, contain at least \<open>min(count, max - min + 1)\<close>
  distinct values within \<open>[min, max]\<close>.
\<close>

theorem sampleUnique_returns_iff:
  "(\<exists>ys. sampleUnique this e i count mn mx = Some ys) \<longleftrightarrow>
     (\<exists>N. min count (mx - mn + 1) \<le> int (distinctInRange mn mx (candidates e None d mn mx i N)))"
  using sampleUnique_returns [of this e i count mn mx d] by auto

theorem sampleUnique_returns_iff_witness:
  "(\<exists>ys. sampleUnique defaultEngine sixDraws 0 5 1 6 = Some ys)
     \<and> min 5 (6 - 1 + 1) \<le> int (distinctInRange 1 6 (candidates sixDraws None 0 1 6 0 6))"
proof -
  have s: "min 5 (6 - 1 + 1) \<le> int (distinctInRange 1 6 (candidates sixDraws None 0 1 6 0 6))"
    by (simp add: sixDraws_supply)
  then have "\<exists>N. min 5 (6 - 1 + 1) \<le> int (distinctInRange 1 6 (candidates sixDraws None 0 1 6 0 N))" ..
  with s show ?thesis
    unfolding sampleUnique_returns_iff [of defaultEngine sixDraws 0 5 1 6 0] by simp
qed

theorem sampleUnique_no_fallback:
  "sampleUnique defaultEngine (replay [] 0) 0 6 1 6 = None"
  by (rule sampleUnique_stuck [of "{4}" _ 0]) (simp_all add: zeros_candidate)

subsection \<open>Claims about the feature importance and the list of supported lotteries\<close>

text \<open>
  C6. The mapping returned by \<open>generateFeatureImportance\<close> has exactly one entry for
  each of the five labels of \<open>baseImportance\<close>, and every value lies in [0, 1].
\<close>

theorem featureImportance_labels_unit_interval:
  "map fst (mapEntries e i baseImportance)
      = [''frequency'', ''recency'', ''entropy'', ''cooccurrence'', ''seasonality'']
   \<and> dom (fst (generateFeatureImportance e i lotteryType))
      = {''frequency'', ''recency'', ''entropy'', ''cooccurrence'', ''seasonality''}
   \<and> (\<forall>k v. fst (generateFeatureImportance e i lotteryType) k = Some v \<longrightarrow> 0 \<le> v \<and> v \<le> 1)"
proof -
  have keys: "map fst (mapEntries e i baseImportance)
      = [''frequency'', ''recency'', ''entropy'', ''cooccurrence'', ''seasonality'']"
    by (simp add: mapEntries_keys baseImportance_def)
  have "dom (fst (generateFeatureImportance e i lotteryType))
      = set (map fst (mapEntries e i baseImportance))"
    by (simp add: generateFeatureImportance_def fromEntries_dom)
  then have d: "dom (fst (generateFeatureImportance e i lotteryType))
      = {''frequency'', ''recency'', ''entropy'', ''cooccurrence'', ''seasonality''}"
    unfolding keys by simp
  have "0 \<le> v \<and> v \<le> 1" if "fst (generateFeatureImportance e i lotteryType) k = Some v" for k v
  proof -
    from that have "(k, v) \<in> set (mapEntries e i baseImportance)"
      using fromEntries_val [of "mapEntries e i baseImportance" Map.empty k v]
      by (simp add: generateFeatureImportance_def)
    from mapEntries_clamped [OF this] show ?thesis by simp
  qed
  with keys d show ?thesis by blast
qed

theorem featureImportance_labels_unit_interval_witness:
  "fst (generateFeatureImportance (replay [] (1/2)) 0 ''india_lotto'') ''entropy'' = Some 0.2
     \<and> (0::real) \<le> 0.2 \<and> (0.2::real) \<le> 1"
proof -
  have h: "fst (generateFeatureImportance (replay [] (1/2)) 0 ''india_lotto'') ''entropy'' = Some 0.2"
    by (simp add: generateFeatureImportance_def baseImportance_def variation_def replay_def)
  with featureImportance_labels_unit_interval [of "replay [] (1/2)" 0 "''india_lotto''"]
  show ?thesis by simp
qed

text \<open>
  C9. \<open>getSupportedLotteries\<close> returns a new array with the elements of the engine's
  list: whatever is written to the returned array, the engine's list keeps its elements,
  and a second call returns an array with the same elements as the first.
\<close>

theorem getSupportedLotteries_fresh_copy:
  assumes "supportedLotteries this < length st"
    and "getSupportedLotteries this st = (a, st')"
  shows "a \<noteq> supportedLotteries this
     \<and> st' ! a = st ! supportedLotteries this
     \<and> st' ! supportedLotteries this = st ! supportedLotteries this
     \<and> (\<forall>ys. (st'[a := ys]) ! supportedLotteries this = st ! supportedLotteries this)
     \<and> (\<forall>b st''. getSupportedLotteries this st' = (b, st'')
           \<longrightarrow> b \<noteq> a \<and> st'' ! b = st' ! a)
     \<and> (\<forall>ys b st''. getSupportedLotteries this (st'[a := ys]) = (b, st'')
           \<longrightarrow> st'' ! b = st ! supportedLotteries this)"
  using assms by (auto simp: getSupportedLotteries_def nth_append)

lemma defaultEngine_supportedLotteries:
  "supportedLotteries defaultEngine = 0"
  "defaultStore = [[''emirates_mega7'', ''emirates_easy6'', ''us_powerball'',
                    ''euro_millions'', ''india_lotto'']]"
  by (simp_all add: defaultEngine_def defaultStore_def newQuantumPredictionEngine_def
      initializeLotteryConfigurations_def Let_def)

theorem getSupportedLotteries_fresh_copy_witness:
  "supportedLotteries defaultEngine < length defaultStore
   \<and> fst (getSupportedLotteries defaultEngine defaultStore) = 1
   \<and> (snd (getSupportedLotteries defaultEngine defaultStore)) [1 := []] ! 0
       = [''emirates_mega7'', ''emirates_easy6'', ''us_powerball'', ''euro_millions'',
          ''india_lotto'']"
proof -
  have v: "supportedLotteries defaultEngine < length defaultStore"
    by (simp add: defaultEngine_supportedLotteries)
  have g: "getSupportedLotteries defaultEngine defaultStore
        = (1, defaultStore @ [defaultStore ! 0])"
    by (simp add: getSupportedLotteries_def defaultEngine_supportedLotteries)
  from getSupportedLotteries_fresh_copy [OF v g]
  have "(defaultStore @ [defaultStore ! 0]) [1 := []] ! supportedLotteries defaultEngine
          = defaultStore ! supportedLotteries defaultEngine"
    by blast
  then have "(defaultStore @ [defaultStore ! 0]) [1 := []] ! 0
          = [''emirates_mega7'', ''emirates_easy6'', ''us_powerball'', ''euro_millions'',
             ''india_lotto'']"
    by (simp add: defaultEngine_supportedLotteries)
  with v show ?thesis by (simp add: g)
qed

subsection \<open>Locality: results depend only on the draws consumed\<close>

lemma mapEntries_local:
  "(\<And>k. k < length xs \<Longrightarrow> e' (j' + k) = e (j + k)) \<Longrightarrow> mapEntries e' j' xs = mapEntries e j xs"
proof (induction xs arbitrary: j j')
  case Nil
  show ?case by simp
next
  case (Cons x xs)
  obtain key val where x: "x = (key, val)" by (cases x)
  have "e' (Suc j' + k) = e (Suc j + k)" if "k < length xs" for k
    using Cons.prems [of "Suc k"] that by simp
  from Cons.IH [OF this] Cons.prems [of 0] show ?case by (simp add: x)
qed

lemma generateFeatureImportance_local:
  assumes "\<And>k. k < 5 \<Longrightarrow> e' (j' + k) = e (j + k)"
  shows "fst (generateFeatureImportance e' j' lotteryType') = fst (generateFeatureImportance e j lotteryType)"
proof -
  have "mapEntries e' j' baseImportance = mapEntries e j baseImportance"
    by (rule mapEntries_local) (simp add: baseImportance_def assms)
  then show ?thesis by (simp add: generateFeatureImportance_def)
qed




subsection \<open>A concrete run of the prediction\<close>

lemma samplingLoop_accept:
  assumes "int (length result) < n" "candidate e cfg d mn mx i = c" "mn \<le> c" "c \<le> mx"
    "unused used c"
  shows "samplingLoop e cfg d n mn mx i result used
           = samplingLoop e cfg d n mn mx (i + 3) (result @ [c]) (used(c \<mapsto> True))"
  using assms by (subst samplingLoop.simps) (simp add: Let_def)

lemma powerballDraws_candidates:
  "candidate (powerballDraws b) None d 1 69 (Suc 0) = 11"
  "candidate (powerballDraws b) None d 1 69 4 = 18"
  "candidate (powerballDraws b) None d 1 69 7 = 35"
  "candidate (powerballDraws b) None d 1 69 10 = 52"
  "candidate (powerballDraws b) None d 1 69 13 = 59"
proof -
  show "candidate (powerballDraws b) None d 1 69 (Suc 0) = 11"
    unfolding candidate_def Let_def floor_eq_iff
    using sqrt_2_decimal by (simp add: powerballDraws_def replay_def cos_135 sin_30)
  show "candidate (powerballDraws b) None d 1 69 4 = 18"
    by (simp add: candidate_def powerballDraws_def replay_def cos_120 sin_30)
  show "candidate (powerballDraws b) None d 1 69 7 = 35"
    by (simp add: candidate_def powerballDraws_def replay_def)
  show "candidate (powerballDraws b) None d 1 69 10 = 52"
    by (simp add: candidate_def powerballDraws_def replay_def cos_60 sin_30)
  show "candidate (powerballDraws b) None d 1 69 13 = 59"
    unfolding candidate_def Let_def floor_eq_iff
    using sqrt_2_decimal by (simp add: powerballDraws_def replay_def cos_45 sin_30)
qed

lemma powerballDraws_bonus:
  "candidate (powerballDraws [0, 0, 0]) None d 1 26 16 = 14"
  "candidate (powerballDraws [1/2, 1/3, 2/3]) None d 1 26 16 = 7"
  by (simp_all add: candidate_def powerballDraws_def replay_def cos_120 sin_30)

lemma powerballDraws_numbers:
  "generateQuantumRandomNumbers quickEngine (powerballDraws b) (Suc 0) 5 1 69 None
     = Some ([11, 18, 35, 52, 59], 16)"
  unfolding generateQuantumRandomNumbers_def Let_def
  apply (simp add: powerballDraws_candidates unused_def
      samplingLoop_accept [where c = 11 and i = "Suc 0"]
      samplingLoop_accept [where c = 18 and i = 4]
      samplingLoop_accept [where c = 35 and i = 7]
      samplingLoop_accept [where c = 52 and i = 10]
      samplingLoop_accept [where c = 59 and i = 13]
      samplingLoop_exit)
  done


lemma powerballDraws_bonus_numbers:
  "generateQuantumRandomNumbers quickEngine (powerballDraws [0, 0, 0]) 16 1 1 26 None
     = Some ([14], 19)"
  "generateQuantumRandomNumbers quickEngine (powerballDraws [1/2, 1/3, 2/3]) 16 1 1 26 None
     = Some ([7], 19)"
  unfolding generateQuantumRandomNumbers_def Let_def
  by (simp_all add: powerballDraws_bonus unused_def samplingLoop_exit
      samplingLoop_accept [where c = 14 and i = 16] samplingLoop_accept [where c = 7 and i = 16])

lemma powerball_configuration:
  "getLotteryConfiguration ''us_powerball''
     = \<lparr> numberCount = 5, numberRange = 69, specialNumbers = True,
         specialNumberCount = Some 1, specialNumberRange = Some 26,
         drawFrequency = ''twice-weekly'', historicalDataDepth = 200 \<rparr>"
  by (simp add: getLotteryConfiguration_def)

lemma quickEngine_ensembleSize: "ensembleSize (config quickEngine) = 0"
  by (simp add: quickEngine_def setParameters_def)

lemma powerball_run:
  assumes "b = [0, 0, 0] \<and> c = 14 \<or> b = [1/2, 1/3, 2/3] \<and> c = 7"
  shows "\<exists>r. generatePrediction quickEngine (powerballDraws b) clock 0 ''us_powerball'' targetDate
            = Some (r, quickEngine, 31)
          \<and> numbers (primaryPrediction r) = [11, 18, 35, 52, 59]
          \<and> bonus (primaryPrediction r) = [c]"
proof -
  obtain t0 t1 t2 where clock: "clock = (t0, t1, t2)" by (cases clock)
  from assms have g: "generateQuantumRandomNumbers quickEngine (powerballDraws b) 16 1 1 26 None
     = Some ([c], 19)"
    using powerballDraws_bonus_numbers by auto
  show ?thesis
    unfolding generatePrediction_def generatePredictionSet_def clock
    by (simp add: powerball_configuration powerballDraws_numbers g quickEngine_ensembleSize
        generateRationale_def generateFeatureImportance_def baseImportance_def Let_def split_def)
qed

subsection \<open>Claims about the prediction as a whole\<close>

lemma generatePrediction_metrics:
  assumes "generatePrediction this e clock i lotteryType targetDate = Some (r, this', n)"
  shows "9 \<le> n \<and> featureImportance (quantumMetrics r)
           = fst (generateFeatureImportance e (n - 9) lotteryType)"
  using assms
  by (auto simp: generatePrediction_def generateFeatureImportance_def baseImportance_def Let_def
      split: prod.splits option.splits)

text \<open>
  C7. The feature importance reported by a prediction is what
  \<open>generateFeatureImportance\<close> computes from its own five draws: two runs of
  \<open>generatePrediction\<close> in which these five draws agree report the same feature
  importance, whatever engines, lottery types and dates they are called with and whatever
  numbers they sample.
\<close>

theorem featureImportance_independent_of_numbers:
  assumes "generatePrediction this e clock i lotteryType targetDate = Some (r, this', n)"
    and "generatePrediction that e' clock' i' lotteryType' targetDate' = Some (r', that', n')"
    and "\<forall>k<5. e' (n' - 9 + k) = e (n - 9 + k)"
  shows "featureImportance (quantumMetrics r') = featureImportance (quantumMetrics r)"
proof -
  have "fst (generateFeatureImportance e' (n' - 9) lotteryType')
      = fst (generateFeatureImportance e (n - 9) lotteryType)"
    by (rule generateFeatureImportance_local) (simp add: assms(3))
  with generatePrediction_metrics [OF assms(1)] generatePrediction_metrics [OF assms(2)]
  show ?thesis by simp
qed

theorem featureImportance_independent_of_numbers_witness:
  "\<exists>r r'. generatePrediction quickEngine (powerballDraws [0, 0, 0]) (0, 1, 2) 0
             ''us_powerball'' ''2025-09-06'' = Some (r, quickEngine, 31)
     \<and> generatePrediction quickEngine (powerballDraws [1/2, 1/3, 2/3]) (5, 6, 9) 0
             ''us_powerball'' ''2025-09-13'' = Some (r', quickEngine, 31)
     \<and> bonus (primaryPrediction r) = [14] \<and> bonus (primaryPrediction r') = [7]
     \<and> featureImportance (quantumMetrics r') = featureImportance (quantumMetrics r)"
proof -
  obtain r where r: "generatePrediction quickEngine (powerballDraws [0, 0, 0]) (0, 1, 2) 0
             ''us_powerball'' ''2025-09-06'' = Some (r, quickEngine, 31)"
      "bonus (primaryPrediction r) = [14]"
    using powerball_run [of "[0, 0, 0]" 14 "(0, 1, 2)" "''2025-09-06''"] by auto
  obtain r' where r': "generatePrediction quickEngine (powerballDraws [1/2, 1/3, 2/3]) (5, 6, 9) 0
             ''us_powerball'' ''2025-09-13'' = Some (r', quickEngine, 31)"
      "bonus (primaryPrediction r') = [7]"
    using powerball_run [of "[1/2, 1/3, 2/3]" 7 "(5, 6, 9)" "''2025-09-13''"] by auto
  have "\<forall>k<5. powerballDraws [1/2, 1/3, 2/3] (31 - 9 + k) = powerballDraws [0, 0, 0] (31 - 9 + k)"
    by (simp add: powerballDraws_def replay_def)
  from featureImportance_independent_of_numbers [OF r(1) r'(1) this] r r'
  show ?thesis by blast
qed


subsection \<open>What a call leaves unchanged\<close>























subsection \<open>Calls on the store return when the sampler returns\<close>







subsection \<open>Calls on the store compute what the calls on values compute\<close>











subsection \<open>The sampler without a lottery type does not read the engine\<close>





subsection \<open>Claim about side effects\<close>




end
